theory Spec2Isabelle
  imports
    Complex_Main
    "HOL-Library.Char_ord"
    "HOL-Library.List_Lexorder"
    "HOL-Library.Product_Lexorder"
    "HOL-Library.Multiset"
begin

section \<open>Calendar dates\<close>

text \<open>
  \<^verbatim>\<open>gym_workout.py\<close> works with \<^verbatim>\<open>datetime.date\<close> values: it subtracts
  \<^verbatim>\<open>timedelta(weeks=i)\<close> from \<^verbatim>\<open>date.today()\<close> and formats dates with
  \<^verbatim>\<open>strftime("%Y-W%V")\<close>. A date is the triple Python stores; the arithmetic below is
  the proleptic Gregorian arithmetic of the \<^verbatim>\<open>datetime\<close> module (\<^verbatim>\<open>_ymd2ord\<close>,
  \<^verbatim>\<open>_ord2ymd\<close>, \<^verbatim>\<open>isocalendar\<close>), with Python's floor division, which is
  \<open>div\<close> on \<open>int\<close>.
\<close>

record date =
  year :: int
  month :: int
  day :: int

datatype error =
  OverflowError | DateParseError | IntCastingNaNError | FileNotFoundError | EmptyDataError |
  KeyError string

definition is_leap :: "int \<Rightarrow> bool" where
  "is_leap y \<longleftrightarrow> y mod 4 = 0 \<and> (y mod 100 \<noteq> 0 \<or> y mod 400 = 0)"

definition days_before_year :: "int \<Rightarrow> int" where
  "days_before_year y = (let y1 = y - 1 in y1 * 365 + y1 div 4 - y1 div 100 + y1 div 400)"

definition DAYS_IN_MONTH :: "int list" where
  "DAYS_IN_MONTH = [-1, 31, 28, 31, 30, 31, 30, 31, 31, 30, 31, 30, 31]"

definition DAYS_BEFORE_MONTH :: "int list" where
  "DAYS_BEFORE_MONTH = [-1, 0, 31, 59, 90, 120, 151, 181, 212, 243, 273, 304, 334]"

definition days_before_month :: "int \<Rightarrow> int \<Rightarrow> int" where
  "days_before_month y m = DAYS_BEFORE_MONTH ! nat m + (if m > 2 \<and> is_leap y then 1 else 0)"

definition ymd2ord :: "int \<Rightarrow> int \<Rightarrow> int \<Rightarrow> int" where
  "ymd2ord y m d = days_before_year y + days_before_month y m + d"

definition toordinal :: "date \<Rightarrow> int" where
  "toordinal d = ymd2ord (year d) (month d) (day d)"

text \<open>
  \<^verbatim>\<open>_ord2ymd\<close>: the ordinal is split into 400-year, 100-year, 4-year and 1-year
  cycles (146097, 36524, 1461 and 365 days); \<^verbatim>\<open>(n + 50) >> 5\<close> is the month estimate,
  corrected downwards when it overshoots.
\<close>

definition ord2ymd :: "int \<Rightarrow> date" where
  "ord2ymd n0 =
    (let n = n0 - 1;
         n400 = n div 146097; na = n mod 146097;
         n100 = na div 36524; nb = na mod 36524;
         n4 = nb div 1461; nc = nb mod 1461;
         n1 = nc div 365; nd = nc mod 365;
         y = n400 * 400 + 1 + (n100 * 100 + n4 * 4 + n1)
     in if n1 = 4 \<or> n100 = 4 then \<lparr>year = y - 1, month = 12, day = 31\<rparr>
        else
          (let leapyear = (n1 = 3 \<and> (n4 \<noteq> 24 \<or> n100 = 3));
               m = (nd + 50) div 32;
               preceding = DAYS_BEFORE_MONTH ! nat m + (if m > 2 \<and> leapyear then 1 else 0)
           in if preceding > nd
              then (let m' = m - 1;
                        preceding' = preceding
                          - (DAYS_IN_MONTH ! nat m' + (if m' = 2 \<and> leapyear then 1 else 0))
                    in \<lparr>year = y, month = m', day = nd - preceding' + 1\<rparr>)
              else \<lparr>year = y, month = m, day = nd - preceding + 1\<rparr>))"

definition MAXORDINAL :: int where
  "MAXORDINAL = 3652059"

text \<open>
  \<^verbatim>\<open>today - timedelta(weeks=i)\<close>: the ordinal moves back by \<open>7 * i\<close> days, and Python
  raises \<^verbatim>\<open>OverflowError\<close> when the result leaves \<^verbatim>\<open>date.min .. date.max\<close>.
\<close>

definition sub_weeks :: "date \<Rightarrow> int \<Rightarrow> error + date" where
  "sub_weeks d i =
    (let n = toordinal d - 7 * i
     in if 0 < n \<and> n \<le> MAXORDINAL then Inr (ord2ymd n) else Inl OverflowError)"

definition isoweek1monday :: "int \<Rightarrow> int" where
  "isoweek1monday y =
    (let firstday = ymd2ord y 1 1;
         firstweekday = (firstday + 6) mod 7;
         week1monday = firstday - firstweekday
     in if firstweekday > 3 then week1monday + 7 else week1monday)"

text \<open>\<^verbatim>\<open>date.isocalendar()\<close>: the ISO year, the ISO week and the ISO weekday.\<close>

definition isocalendar :: "date \<Rightarrow> int \<times> int \<times> int" where
  "isocalendar d =
    (let y = year d;
         week1monday = isoweek1monday y;
         today = toordinal d;
         week = (today - week1monday) div 7;
         wd = (today - week1monday) mod 7
     in if week < 0
        then (let w1 = isoweek1monday (y - 1)
              in (y - 1, (today - w1) div 7 + 1, (today - w1) mod 7 + 1))
        else if week \<ge> 52 \<and> today \<ge> isoweek1monday (y + 1) then (y + 1, 1, wd + 1)
        else (y, week + 1, wd + 1))"

subsection \<open>Formatting\<close>

definition digit :: "nat \<Rightarrow> char" where
  "digit n = ''0123456789'' ! n"

fun str_nat :: "nat \<Rightarrow> string" where
  "str_nat n = (if n < 10 then [digit n] else str_nat (n div 10) @ [digit (n mod 10)])"

declare str_nat.simps [simp del]

text \<open>
  \<^verbatim>\<open>%Y\<close> is the calendar year of the date in decimal, \<^verbatim>\<open>%V\<close> the ISO 8601 week
  number on two digits. The year of a date is at least 1, so \<open>nat\<close> loses nothing.
\<close>

definition fmt_Y :: "date \<Rightarrow> string" where
  "fmt_Y d = str_nat (nat (year d))"

definition fmt_V :: "date \<Rightarrow> string" where
  "fmt_V d =
    (let w = nat (fst (snd (isocalendar d)))
     in if w < 10 then CHR ''0'' # str_nat w else str_nat w)"

definition strftime_Y_W_V :: "date \<Rightarrow> string" where
  "strftime_Y_W_V d = fmt_Y d @ ''-W'' @ fmt_V d"

section \<open>The table of set entries\<close>

text \<open>
  One row of the table is one logged set. The fields are the ten columns of
  \<^verbatim>\<open>data/workouts.csv\<close>, at the types \<^verbatim>\<open>load_data\<close> gives them: the date is a
  \<^verbatim>\<open>datetime.date\<close>, \<open>reps\<close> an integer, \<open>weight\<close> and \<open>volume\<close> numbers. The column
  \<^verbatim>\<open>id\<close> is the field \<open>entry_id\<close> and the column \<^verbatim>\<open>notes\<close> the field
  \<open>notes_text\<close>. A \<^verbatim>\<open>float64\<close> is modelled by the real number it denotes:
  rounding, infinities and NaN are not part of a row, and an integer is taken to fit
  the 64 bits pandas gives it.

  A notes cell is a Python string, or missing (\<open>None\<close>, the NaN pandas puts where it
  reads a blank cell): the form leaves the notes blank by default, so both occur. The
  other four text columns hold the text as the program wrote it (a UUID, an ISO
  timestamp, a non-blank exercise name, a unit); a missing value there, or a text
  column that pandas reads back as numbers, is not a value of a row.
\<close>

record entry =
  entry_id :: string
  timestamp :: string
  date :: date
  exercise :: string
  set_num :: int
  reps :: int
  weight :: real
  unit :: string
  notes_text :: "string option"
  volume :: real

text \<open>
  A \<^verbatim>\<open>DataFrame\<close> of the program: the column index (the header, in order) and the
  rows. Every frame of the model holds the ten columns of a set entry, so \<open>columns\<close>
  records their order and \<^verbatim>\<open>df.empty\<close> is "no rows".
\<close>

record frame =
  columns :: "string list"
  rows :: "entry list"

definition empty :: "frame \<Rightarrow> bool" where
  "empty df \<longleftrightarrow> rows df = []"

definition SCHEMA :: "string list" where
  "SCHEMA = [''id'', ''timestamp'', ''date'', ''exercise'', ''set_num'',
             ''reps'', ''weight'', ''unit'', ''notes'', ''volume'']"

subsection \<open>The backing file\<close>

text \<open>
  The file is its header and its lines; a line has one cell for each of the ten
  columns. Which spellings pandas accepts as a date or as a number is pandas' business
  and is not modelled: a cell of a converted column is classified by what pandas makes
  of its text.
  \<^item> A date cell is text \<^verbatim>\<open>pd.to_datetime\<close> reads as a date in some format, or text
    it cannot read. (A blank date cell, which pandas reads as \<^verbatim>\<open>NaT\<close>, has no value
    in a row and is not a cell of the model.)
  \<^item> A \<^verbatim>\<open>reps\<close> cell is text \<^verbatim>\<open>pd.to_numeric\<close> reads as a finite number, text it
    reads as an infinity, or text (a blank included) for which \<^verbatim>\<open>errors="coerce"\<close>
    yields NaN.
  \<^item> A \<^verbatim>\<open>weight\<close> or \<^verbatim>\<open>volume\<close> cell is text read as a finite number, or text
    for which \<^verbatim>\<open>errors="coerce"\<close> yields NaN.
  \<^item> A notes cell is its text, which \<^verbatim>\<open>pd.read_csv\<close> hands back as a string or
    takes for a missing value. (A notes column whose cells all read as numbers, which
    pandas hands back as numbers, is not modelled.)
  The other columns are carried at the types of \<open>entry\<close>.
\<close>

datatype date_cell = DateText string date | NotADate string

datatype reps_cell = RepsNumber real | RepsInfinite | RepsNotNumeric string

datatype num_cell = Number real | NotNumeric string

record raw_row =
  c_id :: string
  c_timestamp :: string
  c_date :: date_cell
  c_exercise :: string
  c_set_num :: int
  c_reps :: reps_cell
  c_weight :: num_cell
  c_unit :: string
  c_notes :: string
  c_volume :: num_cell

record csv_file =
  header :: "string list"
  lines :: "raw_row list"

text \<open>
  The texts \<^verbatim>\<open>pd.read_csv\<close> takes for a missing value by default (its
  \<^verbatim>\<open>na_values\<close>); the first is the blank cell. \<^verbatim>\<open>to_csv\<close> writes a missing value
  as a blank cell.
\<close>

definition na_values :: "string list" where
  "na_values = [[], ''#N/A'', ''#N/A N/A'', ''#NA'', ''-1.#IND'', ''-1.#QNAN'', ''-NaN'',
                ''-nan'', ''1.#IND'', ''1.#QNAN'', ''<NA>'', ''N/A'', ''NA'', ''NULL'', ''NaN'',
                ''None'', ''n/a'', ''nan'', ''null'']"

definition na_text :: "string \<Rightarrow> bool" where
  "na_text t \<longleftrightarrow> t \<in> set na_values"

definition read_text :: "string \<Rightarrow> string option" where
  "read_text t = (if na_text t then None else Some t)"

definition write_text :: "string option \<Rightarrow> string" where
  "write_text x = (case x of None \<Rightarrow> [] | Some t \<Rightarrow> t)"

text \<open>
  What a table reads back as once written: every notes cell that is a blank string, or
  a string spelled like a missing value, has become missing.
\<close>

definition reread_row :: "entry \<Rightarrow> entry" where
  "reread_row r = r\<lparr>notes_text := read_text (write_text (notes_text r))\<rparr>"

definition reread :: "frame \<Rightarrow> frame" where
  "reread df = df\<lparr>rows := map reread_row (rows df)\<rparr>"

text \<open>
  The columns \<^verbatim>\<open>load_data\<close> converts, which it looks up by name when the table has
  a row. A table can be read back once written when it has a column at all and, if it
  has a row, those four.
\<close>

definition converted_columns :: "string list" where
  "converted_columns = [''date'', ''reps'', ''weight'', ''volume'']"

definition header_ok :: "frame \<Rightarrow> bool" where
  "header_ok df \<longleftrightarrow>
    columns df \<noteq> [] \<and> (rows df = [] \<or> set converted_columns \<subseteq> set (columns df))"

text \<open>
  What \<^verbatim>\<open>@st.cache_data\<close> can hold. Nothing but \<^verbatim>\<open>load_data\<close> puts a frame in the
  memo, so a memoized frame is one that \<^verbatim>\<open>load_data\<close> has read from a file: its
  missing notes are missing, and its header is one the conversions accept. The type of
  the memo records this.
\<close>

definition loadable :: "frame \<Rightarrow> bool" where
  "loadable df \<longleftrightarrow> reread df = df \<and> header_ok df"

typedef loaded_frame = "{df :: frame. loadable df}"
  by (rule exI [of _ "\<lparr>columns = SCHEMA, rows = []\<rparr>"])
    (simp add: loadable_def header_ok_def reread_def SCHEMA_def)

setup_lifting type_definition_loaded_frame

text \<open>
  Putting a frame in the memo. \<^verbatim>\<open>load_data\<close> memoizes what its body has read, which
  is loadable, so the frame is stored as it is; the other branch makes the function
  total and is never taken by the program.
\<close>

lift_definition memoize :: "frame \<Rightarrow> loaded_frame" is
  "\<lambda>df. if loadable df then df else \<lparr>columns = SCHEMA, rows = []\<rparr>"
  by (simp add: loadable_def header_ok_def reread_def SCHEMA_def)

text \<open>
  The store: \<^verbatim>\<open>DATA_FILE\<close> on disk (\<open>None\<close> while it does not exist) and the result
  memoized by \<^verbatim>\<open>@st.cache_data\<close> (\<open>None\<close> while nothing is cached).
\<close>

record store =
  data_file :: "csv_file option"
  cache :: "loaded_frame option"

definition ensure_data_file :: "store \<Rightarrow> store" where
  "ensure_data_file s =
    (case data_file s of
       None \<Rightarrow> s\<lparr>data_file := Some \<lparr>header = SCHEMA, lines = []\<rparr>\<rparr>
     | Some f \<Rightarrow> s)"

text \<open>
  \<^verbatim>\<open>pd.read_csv(DATA_FILE)\<close>: a file with no header line has no columns to parse.
\<close>

definition read_csv :: "store \<Rightarrow> error + csv_file" where
  "read_csv s =
    (case data_file s of
       None \<Rightarrow> Inl FileNotFoundError
     | Some f \<Rightarrow> if header f = [] then Inl EmptyDataError else Inr f)"

text \<open>\<^verbatim>\<open>df[name]\<close> on the frame read: the cells of the column, if the header has it.\<close>

definition getitem :: "csv_file \<Rightarrow> string \<Rightarrow> (raw_row \<Rightarrow> 'a) \<Rightarrow> error + 'a list" where
  "getitem f name cell =
    (if name \<in> set (header f) then Inr (map cell (lines f)) else Inl (KeyError name))"

fun collect :: "(error + 'a) list \<Rightarrow> error + 'a list" where
  "collect [] = Inr []"
| "collect (x # xs) =
    (case x of
       Inl e \<Rightarrow> Inl e
     | Inr v \<Rightarrow> (case collect xs of Inl e \<Rightarrow> Inl e | Inr vs \<Rightarrow> Inr (v # vs)))"

text \<open>
  \<^verbatim>\<open>pd.to_datetime(df["date"])\<close> with the default \<^verbatim>\<open>errors="raise"\<close>, on the whole
  column, as pandas 2 does it: the format is the one of the first cell, and a cell
  that cannot be read, or is in another format, raises.
\<close>

definition parse_as :: "string \<Rightarrow> date_cell \<Rightarrow> error + date" where
  "parse_as fmt c =
    (case c of
       DateText fmt' d \<Rightarrow> if fmt' = fmt then Inr d else Inl DateParseError
     | NotADate t \<Rightarrow> Inl DateParseError)"

definition to_datetime :: "date_cell list \<Rightarrow> error + date list" where
  "to_datetime cs =
    (case cs of
       [] \<Rightarrow> Inr []
     | c # cs' \<Rightarrow>
         (case c of
            NotADate t \<Rightarrow> Inl DateParseError
          | DateText fmt d \<Rightarrow> collect (map (parse_as fmt) cs)))"

text \<open>
  \<^verbatim>\<open>pd.to_numeric(..., errors="coerce")\<close>: \<open>None\<close> is NaN. On the \<^verbatim>\<open>reps\<close> column
  the float read can be an infinity.
\<close>

datatype float64 = Finite real | Infinite

definition to_numeric_reps :: "reps_cell \<Rightarrow> float64 option" where
  "to_numeric_reps c =
    (case c of
       RepsNumber x \<Rightarrow> Some (Finite x)
     | RepsInfinite \<Rightarrow> Some Infinite
     | RepsNotNumeric t \<Rightarrow> None)"

definition to_numeric :: "num_cell \<Rightarrow> real option" where
  "to_numeric c = (case c of Number x \<Rightarrow> Some x | NotNumeric t \<Rightarrow> None)"

definition fillna :: "'a \<Rightarrow> 'a option \<Rightarrow> 'a" where
  "fillna v x = (case x of None \<Rightarrow> v | Some y \<Rightarrow> y)"

text \<open>
  \<^verbatim>\<open>.astype(int)\<close> on a float column: a finite value is truncated towards zero, and
  a column that holds an infinity raises. (The result of the cast on a value beyond 64
  bits is not modelled.)
\<close>

definition trunc :: "real \<Rightarrow> int" where
  "trunc x = (if 0 \<le> x then \<lfloor>x\<rfloor> else \<lceil>x\<rceil>)"

definition astype_int :: "float64 list \<Rightarrow> error + int list" where
  "astype_int xs =
    collect (map (\<lambda>x. case x of Finite v \<Rightarrow> Inr (trunc v) | Infinite \<Rightarrow> Inl IntCastingNaNError) xs)"

text \<open>
  The conversions of \<^verbatim>\<open>load_data\<close> on the frame read, column by column in the
  order of the source: the dates, then \<^verbatim>\<open>reps\<close>, then \<^verbatim>\<open>weight\<close> and
  \<^verbatim>\<open>volume\<close>. \<^verbatim>\<open>pd.read_csv\<close> has already read the notes.
\<close>

definition build_row :: "raw_row \<Rightarrow> date \<Rightarrow> int \<Rightarrow> real \<Rightarrow> real \<Rightarrow> entry" where
  "build_row r d n w v =
    \<lparr>entry_id = c_id r, timestamp = c_timestamp r, date = d,
     exercise = c_exercise r, set_num = c_set_num r, reps = n, weight = w,
     unit = c_unit r, notes_text = read_text (c_notes r), volume = v\<rparr>"

definition coerce :: "csv_file \<Rightarrow> error + entry list" where
  "coerce f =
    (case getitem f ''date'' c_date of
       Inl e \<Rightarrow> Inl e
     | Inr date_cells \<Rightarrow>
    (case to_datetime date_cells of
       Inl e \<Rightarrow> Inl e
     | Inr ds \<Rightarrow>
    (case getitem f ''reps'' c_reps of
       Inl e \<Rightarrow> Inl e
     | Inr reps_cells \<Rightarrow>
    (case astype_int (map (\<lambda>c. fillna (Finite 0) (to_numeric_reps c)) reps_cells) of
       Inl e \<Rightarrow> Inl e
     | Inr ns \<Rightarrow>
    (case getitem f ''weight'' c_weight of
       Inl e \<Rightarrow> Inl e
     | Inr weight_cells \<Rightarrow>
    (case getitem f ''volume'' c_volume of
       Inl e \<Rightarrow> Inl e
     | Inr volume_cells \<Rightarrow>
         Inr (map (\<lambda>(r, d, n, w, v). build_row r d n w v)
                (zip (lines f)
                  (zip ds
                    (zip ns
                      (zip (map (\<lambda>c. fillna 0 (to_numeric c)) weight_cells)
                           (map (\<lambda>c. fillna 0 (to_numeric c)) volume_cells))))))))))))"

text \<open>The body of \<^verbatim>\<open>load_data\<close>, run when nothing is memoized.\<close>

definition read_frame :: "store \<Rightarrow> (error + frame) \<times> store" where
  "read_frame s =
    (let s1 = ensure_data_file s
     in case read_csv s1 of
          Inl e \<Rightarrow> (Inl e, s1)
        | Inr f \<Rightarrow>
            if lines f = [] then (Inr \<lparr>columns = header f, rows = []\<rparr>, s1)
            else (case coerce f of
                    Inl e \<Rightarrow> (Inl e, s1)
                  | Inr rs \<Rightarrow> (Inr \<lparr>columns = header f, rows = rs\<rparr>, s1)))"

text \<open>
  \<^verbatim>\<open>@st.cache_data\<close>: a memoized result is returned without running the body; a
  result is memoized when the body returns, not when it raises.
\<close>

definition load_data :: "store \<Rightarrow> (error + frame) \<times> store" where
  "load_data s =
    (case cache s of
       Some m \<Rightarrow> (Inr (Rep_loaded_frame m), s)
     | None \<Rightarrow>
         (case read_frame s of
            (Inl e, s1) \<Rightarrow> (Inl e, s1)
          | (Inr df, s1) \<Rightarrow> (Inr df, s1\<lparr>cache := Some (memoize df)\<rparr>)))"

text \<open>
  \<^verbatim>\<open>df.to_csv(DATA_FILE, index=False)\<close>: the header is the column index; a date is
  written in ISO format, a number as text that reads as that number, a notes string as
  it is and a missing value as a blank cell.
\<close>

definition ISO_FORMAT :: string where
  "ISO_FORMAT = ''%Y-%m-%d''"

definition encode_row :: "entry \<Rightarrow> raw_row" where
  "encode_row r =
    \<lparr>c_id = entry_id r, c_timestamp = timestamp r, c_date = DateText ISO_FORMAT (date r),
     c_exercise = exercise r, c_set_num = set_num r,
     c_reps = RepsNumber (of_int (reps r)), c_weight = Number (weight r),
     c_unit = unit r, c_notes = write_text (notes_text r), c_volume = Number (volume r)\<rparr>"

definition to_csv :: "frame \<Rightarrow> csv_file" where
  "to_csv df = \<lparr>header = columns df, lines = map encode_row (rows df)\<rparr>"

definition save_data :: "frame \<Rightarrow> store \<Rightarrow> store" where
  "save_data df s = s\<lparr>data_file := Some (to_csv df), cache := None\<rparr>"


section \<open>Adding and deleting entries\<close>

text \<open>One element of \<^verbatim>\<open>sets\<close>: the dictionary the form builds for a set.\<close>

record workout_set =
  s_set_num :: int
  s_reps :: int
  s_weight :: real

text \<open>
  \<^verbatim>\<open>str.strip()\<close>, on the ASCII whitespace characters (a string is a list of
  bytes here; the whitespace beyond ASCII is not stripped).
\<close>

definition isspace :: "char \<Rightarrow> bool" where
  "isspace c \<longleftrightarrow> (let n = (of_char c :: nat) in (9 \<le> n \<and> n \<le> 13) \<or> (28 \<le> n \<and> n \<le> 32))"

definition strip :: "string \<Rightarrow> string" where
  "strip s = rev (dropWhile isspace (rev (dropWhile isspace s)))"

text \<open>
  The body of the loop of \<^verbatim>\<open>add_workout_entry\<close> for the \<open>k\<close>-th set: \<open>uuid\<close> is the
  string \<^verbatim>\<open>str(uuid.uuid4())\<close> returns there, \<open>ts\<close> the clock reading taken once
  before the loop.
\<close>

definition new_row ::
  "string \<Rightarrow> string \<Rightarrow> date \<Rightarrow> string \<Rightarrow> string \<Rightarrow> string \<Rightarrow> workout_set \<Rightarrow> entry" where
  "new_row uuid ts entry_date exercise_name unit_name notes_arg s =
    \<lparr>entry_id = uuid, timestamp = ts, date = entry_date,
     exercise = strip exercise_name, set_num = s_set_num s, reps = s_reps s,
     weight = s_weight s, unit = unit_name, notes_text = Some (strip notes_arg),
     volume = of_int (s_reps s) * s_weight s\<rparr>"

text \<open>
  \<^verbatim>\<open>pd.DataFrame(rows)\<close> on a list of dictionaries: the columns are the keys of
  the dictionaries, so the frame of the empty list has no column.
\<close>

definition DataFrame :: "entry list \<Rightarrow> frame" where
  "DataFrame rs = \<lparr>columns = (if rs = [] then [] else SCHEMA), rows = rs\<rparr>"

text \<open>
  \<^verbatim>\<open>pd.concat([a, b], ignore_index=True)\<close>: the rows of \<open>a\<close>, then those of \<open>b\<close>; the
  columns of \<open>a\<close>, then those of \<open>b\<close> that \<open>a\<close> does not have.
\<close>

definition concat_frames :: "frame \<Rightarrow> frame \<Rightarrow> frame" where
  "concat_frames a b =
    \<lparr>columns = columns a @ filter (\<lambda>c. c \<notin> set (columns a)) (columns b),
     rows = rows a @ rows b\<rparr>"

text \<open>
  \<open>uuid4 k\<close> is the result of the \<open>k\<close>-th call of \<^verbatim>\<open>uuid.uuid4()\<close> in this run of
  the function, \<open>now\<close> the value of \<^verbatim>\<open>datetime.now().isoformat()\<close>.
\<close>

definition add_workout_entry ::
  "(nat \<Rightarrow> string) \<Rightarrow> string \<Rightarrow> date \<Rightarrow> string \<Rightarrow> workout_set list \<Rightarrow> string \<Rightarrow> string
    \<Rightarrow> store \<Rightarrow> (error + unit) \<times> store" where
  "add_workout_entry uuid4 now entry_date exercise_name sets unit_name notes_arg s =
    (case load_data s of
       (Inl e, s1) \<Rightarrow> (Inl e, s1)
     | (Inr df, s1) \<Rightarrow>
         (let ts = now;
              new = map (\<lambda>(k, st). new_row (uuid4 k) ts entry_date exercise_name unit_name notes_arg st)
                      (enumerate 0 sets)
          in if new \<noteq> [] then (Inr (), save_data (concat_frames df (DataFrame new)) s1)
             else (Inr (), s1)))"

definition delete_rows_by_ids :: "string list \<Rightarrow> store \<Rightarrow> (error + unit) \<times> store" where
  "delete_rows_by_ids ids s =
    (case load_data s of
       (Inl e, s1) \<Rightarrow> (Inl e, s1)
     | (Inr df, s1) \<Rightarrow>
         if empty df then (Inr (), s1)
         else (Inr (), save_data (df\<lparr>rows := filter (\<lambda>r. entry_id r \<notin> set ids) (rows df)\<rparr>) s1))"

section \<open>Aggregation\<close>

subsection \<open>Weekly summary\<close>

text \<open>
  \<^verbatim>\<open>groupby("year_week")["volume"].sum().reset_index()\<close> on a list of
  (label, volume) pairs: one row per distinct label, the labels sorted, each with the
  sum of its volumes.
\<close>

definition groupby_sum :: "(string \<times> real) list \<Rightarrow> (string \<times> real) list" where
  "groupby_sum kvs =
    map (\<lambda>k. (k, sum_list (map snd (filter (\<lambda>p. fst p = k) kvs))))
      (sort (remdups (map fst kvs)))"

text \<open>
  \<^verbatim>\<open>df_weeks.merge(grouped, on="year_week", how="left")\<close>: the left keys in their
  order, each joined to every right row of the same key, or to NaN (\<open>None\<close>) when
  there is none.
\<close>

definition merge_left :: "string list \<Rightarrow> (string \<times> real) list \<Rightarrow> (string \<times> real option) list" where
  "merge_left ks g =
    concat (map (\<lambda>k. case filter (\<lambda>p. fst p = k) g of
                        [] \<Rightarrow> [(k, None)]
                      | ms \<Rightarrow> map (\<lambda>p. (k, Some (snd p))) ms) ks)"

text \<open>
  The comprehension over \<^verbatim>\<open>range(weeks-1, -1, -1)\<close>: \<open>i\<close> runs from \<open>weeks - 1\<close>
  down to \<open>0\<close>, and the first date out of range raises.
\<close>

definition wk_list :: "date \<Rightarrow> int \<Rightarrow> error + string list" where
  "wk_list today weeks =
    collect (map (\<lambda>i. case sub_weeks today i of
                        Inl e \<Rightarrow> Inl e
                      | Inr d \<Rightarrow> Inr (strftime_Y_W_V d))
                 (rev [0..weeks - 1]))"

text \<open>
  \<open>today\<close> is the value of \<^verbatim>\<open>date.today()\<close>. The result is the list of the rows
  (\<^verbatim>\<open>year_week\<close>, \<^verbatim>\<open>volume\<close>) of the frame returned; \<^verbatim>\<open>pd.DataFrame()\<close> has none.
\<close>

definition get_weekly_summary ::
  "date \<Rightarrow> frame \<Rightarrow> int \<Rightarrow> string option \<Rightarrow> error + (string \<times> real) list" where
  "get_weekly_summary today df weeks exercise_filter =
    (if empty df then Inr []
     else
       (let df2 = map (\<lambda>r. (strftime_Y_W_V (date r), r)) (rows df);
            df2' = (case exercise_filter of
                      None \<Rightarrow> df2
                    | Some f \<Rightarrow>
                        if f \<noteq> [] \<and> f \<noteq> ''All''
                        then filter (\<lambda>(w, r). exercise r = f) df2 else df2);
            grouped = groupby_sum (map (\<lambda>(w, r). (w, volume r)) df2')
        in case wk_list today weeks of
             Inl e \<Rightarrow> Inl e
           | Inr wks \<Rightarrow> Inr (map (\<lambda>(w, v). (w, fillna 0 v)) (merge_left wks grouped))))"

subsection \<open>Full history\<close>

text \<open>
  \<^verbatim>\<open>df.sort_values(by=["date","exercise","set_num"], ascending=[False,True,True])\<close>.
  With several keys pandas sorts by a stable lexicographic sort, so the model is a
  stable sort on one composite key. Python orders dates as the triples (year, month,
  day) and strings by code point; a descending key is the negated one. The page
  computes \<^verbatim>\<open>show_df\<close> only when the table has rows.
\<close>

definition history_key :: "entry \<Rightarrow> (int \<times> int \<times> int) \<times> string \<times> int" where
  "history_key r =
    ((- year (date r), - month (date r), - day (date r)), exercise r, set_num r)"

definition show_df :: "frame \<Rightarrow> frame" where
  "show_df df = df\<lparr>rows := sort_key history_key (rows df)\<rparr>"

section \<open>Predicates and example data used in the statements\<close>

text \<open>
  Three lines of a file: one whose date cell cannot be read, one whose \<^verbatim>\<open>reps\<close> cell
  reads as an infinity, and one whose \<^verbatim>\<open>reps\<close> and \<^verbatim>\<open>volume\<close> cells are not
  numbers.
\<close>

definition bad_row :: raw_row where
  "bad_row = \<lparr>c_id = ''a1'', c_timestamp = ''2024-01-15T10:00:00'',
     c_date = NotADate ''not-a-date'', c_exercise = ''Squat'', c_set_num = 1,
     c_reps = RepsNumber 8, c_weight = Number 50, c_unit = ''kg'', c_notes = [],
     c_volume = Number 400\<rparr>"

definition inf_row :: raw_row where
  "inf_row = \<lparr>c_id = ''a1'', c_timestamp = ''2024-01-15T10:00:00'',
     c_date = DateText ISO_FORMAT \<lparr>year = 2024, month = 1, day = 15\<rparr>,
     c_exercise = ''Squat'', c_set_num = 1,
     c_reps = RepsInfinite, c_weight = Number 50, c_unit = ''kg'', c_notes = [],
     c_volume = Number 400\<rparr>"

definition junk_row :: raw_row where
  "junk_row = \<lparr>c_id = ''a1'', c_timestamp = ''2024-01-15T10:00:00'',
     c_date = DateText ISO_FORMAT \<lparr>year = 2024, month = 1, day = 15\<rparr>,
     c_exercise = ''Squat'', c_set_num = 1,
     c_reps = RepsNotNumeric ''eight'', c_weight = Number 50, c_unit = ''kg'', c_notes = [],
     c_volume = NotNumeric []\<rparr>"

text \<open>
  A store whose file holds one set, the frame \<^verbatim>\<open>load_data\<close> reads from it, and a
  submission of two sets of bench press.
\<close>

definition jan15 :: date where
  "jan15 = \<lparr>year = 2024, month = 1, day = 15\<rparr>"

definition squat_row :: entry where
  "squat_row =
    \<lparr>entry_id = ''5f0c'', timestamp = ''2024-01-10T18:30:00'',
     date = \<lparr>year = 2024, month = 1, day = 10\<rparr>, exercise = ''Squat'', set_num = 1,
     reps = 5, weight = 100, unit = ''kg'', notes_text = Some ''felt strong'', volume = 500\<rparr>"

definition store0 :: store where
  "store0 = \<lparr>data_file = Some \<lparr>header = SCHEMA, lines = [encode_row squat_row]\<rparr>, cache = None\<rparr>"

definition frame0 :: frame where
  "frame0 = \<lparr>columns = SCHEMA, rows = [squat_row]\<rparr>"

definition bench_sets :: "workout_set list" where
  "bench_sets = [\<lparr>s_set_num = 1, s_reps = 8, s_weight = 50\<rparr>,
                 \<lparr>s_set_num = 2, s_reps = 8, s_weight = 50\<rparr>]"

definition uuid_ex :: "nat \<Rightarrow> string" where
  "uuid_ex k = [''a3d1'', ''c77e''] ! k"

text \<open>
  A second row of squats, logged two days later, for the history view.
\<close>

definition jan12_row :: entry where
  "jan12_row = squat_row\<lparr>entry_id := ''91be'', date := \<lparr>year = 2024, month = 1, day = 12\<rparr>\<rparr>"






text \<open>
  The values of \<^verbatim>\<open>datetime.date\<close>: the triples \<^verbatim>\<open>date.fromordinal\<close> builds from
  the ordinals \<open>1 .. MAXORDINAL\<close>.
\<close>

definition valid_date :: "date \<Rightarrow> bool" where
  "valid_date d \<longleftrightarrow> 0 < toordinal d \<and> toordinal d \<le> MAXORDINAL \<and> ord2ymd (toordinal d) = d"




text \<open>
  The order of the history view written out: \<open>a\<close> may stand before \<open>b\<close> when its date
  is later, or the dates are equal and its exercise is smaller, or those are equal too
  and its set number is not larger. Dates compare as Python compares them, by year,
  then month, then day.
\<close>

definition date_less :: "date \<Rightarrow> date \<Rightarrow> bool" where
  "date_less a b \<longleftrightarrow>
    year a < year b \<or> (year a = year b \<and> (month a < month b \<or> (month a = month b \<and> day a < day b)))"

definition history_order :: "entry \<Rightarrow> entry \<Rightarrow> bool" where
  "history_order a b \<longleftrightarrow>
    date_less (date b) (date a) \<or>
    (date a = date b \<and>
      (exercise a < exercise b \<or> (exercise a = exercise b \<and> set_num a \<le> set_num b)))"

text \<open>
  The invariant of the store between two operations: the file, when it exists, has
  the header \<open>SCHEMA\<close>, and a memoized frame is the one the file reads as (nothing but
  the program writes the file).
\<close>

definition store_inv :: "store \<Rightarrow> bool" where
  "store_inv s \<longleftrightarrow>
    (case data_file s of
       None \<Rightarrow> cache s = None
     | Some f \<Rightarrow>
         header f = SCHEMA \<and>
         (case cache s of
            None \<Rightarrow> True
          | Some m \<Rightarrow> fst (read_frame s) = Inr (Rep_loaded_frame m)))"

definition file_header :: "store \<Rightarrow> string list option" where
  "file_header s = map_option header (data_file s)"

section \<open>Loading and saving\<close>

lemma collect_map_Inr: "collect (map Inr vs) = Inr vs"
  by (induction vs) simp_all

lemma collect_InrD: "collect xs = Inr vs \<Longrightarrow> xs = map Inr vs"
  by (induction xs arbitrary: vs) (auto split: sum.splits)

lemma collect_length: "collect xs = Inr vs \<Longrightarrow> length vs = length xs"
  by (drule collect_InrD) simp

lemma trunc_of_int: "trunc (of_int n) = n"
  by (simp add: trunc_def)

lemma read_write_read: "read_text (write_text (read_text t)) = read_text t"
  by (simp add: read_text_def write_text_def na_text_def na_values_def)

lemma reread_row_idem: "reread_row (reread_row r) = reread_row r"
proof -
  have "read_text (write_text (read_text (write_text x))) = read_text (write_text x)" for x
    by (rule read_write_read)
  then show ?thesis
    by (simp add: reread_row_def)
qed

lemma reread_idem: "reread (reread df) = reread df"
  by (simp add: reread_def reread_row_idem)

lemma reread_rows: "reread df = df \<longleftrightarrow> (\<forall>r\<in>set (rows df). reread_row r = r)"
proof
  assume "reread df = df"
  then have "map reread_row (rows df) = rows df"
    by (metis (no_types) reread_def frame.select_convs(2) frame.surjective frame.update_convs(2))
  then show "\<forall>r\<in>set (rows df). reread_row r = r"
    by (simp add: map_idI map_eq_conv [of reread_row "rows df" id, simplified])
next
  assume "\<forall>r\<in>set (rows df). reread_row r = r"
  then have "map reread_row (rows df) = rows df"
    by (simp add: map_idI)
  then show "reread df = df"
    by (simp add: reread_def)
qed

lemma Rep_memoize: "loadable df \<Longrightarrow> Rep_loaded_frame (memoize df) = df"
  by (simp add: memoize.rep_eq)

lemma Rep_loaded: "loadable (Rep_loaded_frame m)"
  using Rep_loaded_frame [of m] by simp

lemma header_ok_reread: "header_ok (reread df) = header_ok df"
  by (simp add: header_ok_def reread_def)

lemma loadable_reread: "header_ok df \<Longrightarrow> loadable (reread df)"
  by (simp add: loadable_def reread_idem header_ok_reread)

lemma to_datetime_ISO:
  "to_datetime (map (\<lambda>r. DateText ISO_FORMAT (date r)) rs) = Inr (map date rs)"
proof (cases rs)
  case Nil
  then show ?thesis by (simp add: to_datetime_def)
next
  case (Cons r rs')
  have "map (parse_as ISO_FORMAT) (map (\<lambda>r. DateText ISO_FORMAT (date r)) rs) = map Inr (map date rs)"
    by (simp add: parse_as_def)
  then have "collect (map (parse_as ISO_FORMAT) (map (\<lambda>r. DateText ISO_FORMAT (date r)) rs))
      = Inr (map date rs)"
    by (simp only: collect_map_Inr)
  with Cons show ?thesis
    by (simp add: to_datetime_def)
qed

lemma astype_int_written:
  "astype_int (map (\<lambda>c. fillna (Finite 0) (to_numeric_reps c))
                 (map (\<lambda>r. RepsNumber (of_int (reps r))) rs))
    = Inr (map reps rs)"
proof -
  have "map (\<lambda>x. case x of Finite v \<Rightarrow> Inr (trunc v) | Infinite \<Rightarrow> Inl IntCastingNaNError)
          (map (\<lambda>c. fillna (Finite 0) (to_numeric_reps c))
             (map (\<lambda>r. RepsNumber (of_int (reps r))) rs))
      = map Inr (map reps rs)"
    by (simp add: fillna_def to_numeric_reps_def trunc_of_int)
  then show ?thesis
    unfolding astype_int_def by (simp only: collect_map_Inr)
qed

lemma build_encoded:
  "build_row (encode_row r) (date r) (reps r)
     (fillna 0 (to_numeric (c_weight (encode_row r))))
     (fillna 0 (to_numeric (c_volume (encode_row r)))) = reread_row r"
  by (simp add: build_row_def encode_row_def reread_row_def to_numeric_def fillna_def)

lemma coerce_encode:
  assumes "set converted_columns \<subseteq> set cols"
  shows "coerce \<lparr>header = cols, lines = map encode_row rs\<rparr> = Inr (map reread_row rs)"
proof -
  let ?f = "\<lparr>header = cols, lines = map encode_row rs\<rparr>"
  have g: "getitem ?f ''date'' c_date = Inr (map (\<lambda>r. DateText ISO_FORMAT (date r)) rs)"
    "getitem ?f ''reps'' c_reps = Inr (map (\<lambda>r. RepsNumber (of_int (reps r))) rs)"
    "getitem ?f ''weight'' c_weight = Inr (map c_weight (map encode_row rs))"
    "getitem ?f ''volume'' c_volume = Inr (map c_volume (map encode_row rs))"
    using assms by (simp_all add: getitem_def converted_columns_def encode_row_def)
  have "map (\<lambda>(r, d, n, w, v). build_row r d n w v)
          (zip (map encode_row rs)
            (zip (map date rs)
              (zip (map reps rs)
                (zip (map (\<lambda>c. fillna 0 (to_numeric c)) (map c_weight (map encode_row rs)))
                     (map (\<lambda>c. fillna 0 (to_numeric c)) (map c_volume (map encode_row rs)))))))
      = map reread_row rs"
    by (induction rs) (simp_all add: build_encoded)
  then show ?thesis
    by (simp add: coerce_def g to_datetime_ISO astype_int_written del: map_map)
qed

lemma coerce_rows:
  assumes "coerce f = Inr rs"
  shows "length rs = length (lines f)" and "\<forall>r\<in>set rs. reread_row r = r"
    and "set converted_columns \<subseteq> set (header f)"
proof -
  from assms have h: "''date'' \<in> set (header f)" "''reps'' \<in> set (header f)"
    "''weight'' \<in> set (header f)" "''volume'' \<in> set (header f)"
    by (auto simp: coerce_def getitem_def split: sum.splits if_splits)
  then show "set converted_columns \<subseteq> set (header f)"
    by (simp add: converted_columns_def)
  from assms h obtain ds ns where d: "to_datetime (map c_date (lines f)) = Inr ds"
    and n: "astype_int (map (\<lambda>c. fillna (Finite 0) (to_numeric_reps c)) (map c_reps (lines f)))
              = Inr ns"
    and rs: "rs = map (\<lambda>(r, d, n, w, v). build_row r d n w v)
                (zip (lines f)
                  (zip ds
                    (zip ns
                      (zip (map (\<lambda>c. fillna 0 (to_numeric c)) (map c_weight (lines f)))
                           (map (\<lambda>c. fillna 0 (to_numeric c)) (map c_volume (lines f)))))))"
    by (auto simp: coerce_def getitem_def split: sum.splits simp del: map_map)
  have "length ds = length (lines f)"
  proof (cases "lines f")
    case Nil
    with d show ?thesis by (simp add: to_datetime_def)
  next
    case (Cons l ls')
    with d obtain fmt where "collect (map (parse_as fmt) (map c_date (lines f))) = Inr ds"
      by (auto simp: to_datetime_def split: date_cell.splits)
    then show ?thesis
      by (auto dest: collect_length)
  qed
  moreover have "length ns = length (lines f)"
    using n by (auto simp: astype_int_def dest: collect_length)
  ultimately show "length rs = length (lines f)"
    using rs by simp
  have "reread_row (build_row r d n w v) = build_row r d n w v" for r d n w v
    by (simp add: reread_row_def build_row_def read_write_read)
  then show "\<forall>r\<in>set rs. reread_row r = r"
    using rs by auto
qed

lemma read_frame_file:
  "data_file s = Some f \<Longrightarrow>
    read_frame s =
      (if header f = [] then (Inl EmptyDataError, s)
       else if lines f = [] then (Inr \<lparr>columns = header f, rows = []\<rparr>, s)
       else (case coerce f of
               Inl e \<Rightarrow> (Inl e, s)
             | Inr rs \<Rightarrow> (Inr \<lparr>columns = header f, rows = rs\<rparr>, s)))"
  by (simp add: read_frame_def ensure_data_file_def read_csv_def)

lemma read_frame_absent:
  "data_file s = None \<Longrightarrow>
    read_frame s = (Inr \<lparr>columns = SCHEMA, rows = []\<rparr>,
                    s\<lparr>data_file := Some \<lparr>header = SCHEMA, lines = []\<rparr>\<rparr>)"
  by (simp add: read_frame_def ensure_data_file_def read_csv_def SCHEMA_def)

lemma read_frame_loaded:
  assumes "read_frame s = (Inr df, s1)"
  shows "loadable df"
proof (cases "data_file s")
  case None
  with assms show ?thesis
    by (auto simp: read_frame_absent loadable_def header_ok_def reread_def SCHEMA_def)
next
  case (Some f)
  show ?thesis
  proof (cases "lines f = []")
    case True
    with Some assms show ?thesis
      by (auto simp: read_frame_file loadable_def header_ok_def reread_def split: if_splits)
  next
    case False
    with Some assms obtain rs where c: "coerce f = Inr rs"
      and df: "df = \<lparr>columns = header f, rows = rs\<rparr>" and h: "header f \<noteq> []"
      by (auto simp: read_frame_file split: sum.splits if_splits)
    from coerce_rows(2,3) [OF c] df h show ?thesis
      by (simp add: loadable_def header_ok_def reread_rows)
  qed
qed

lemma read_frame_saved:
  assumes "header_ok df"
  shows "read_frame (save_data df s) = (Inr (reread df), save_data df s)"
proof -
  have f: "data_file (save_data df s) = Some (to_csv df)"
    by (simp add: save_data_def)
  show ?thesis
  proof (cases "rows df = []")
    case True
    with assms show ?thesis
      by (simp add: read_frame_file [OF f] to_csv_def reread_def header_ok_def)
  next
    case False
    with assms have "set converted_columns \<subseteq> set (columns df)"
      by (simp add: header_ok_def)
    then have "coerce \<lparr>header = columns df, lines = map encode_row (rows df)\<rparr>
        = Inr (map reread_row (rows df))"
      by (rule coerce_encode)
    with assms False show ?thesis
      by (simp add: read_frame_file [OF f] to_csv_def reread_def header_ok_def del: map_map)
  qed
qed

lemma load_data_saved:
  assumes "header_ok df"
  shows "load_data (save_data df s)
    = (Inr (reread df), (save_data df s)\<lparr>cache := Some (memoize (reread df))\<rparr>)"
proof -
  have "cache (save_data df s) = None"
    by (simp add: save_data_def)
  then show ?thesis
    by (simp add: load_data_def read_frame_saved [OF assms])
qed

lemma load_data_cached: "cache s = Some m \<Longrightarrow> load_data s = (Inr (Rep_loaded_frame m), s)"
  by (simp add: load_data_def)

lemma load_data_Inr_cache:
  assumes "load_data s = (Inr df, s1)"
  shows "\<exists>m. cache s1 = Some m \<and> Rep_loaded_frame m = df"
proof (cases "cache s")
  case (Some m)
  with assms show ?thesis
    by (auto simp: load_data_def)
next
  case None
  obtain r s2 where rf: "read_frame s = (r, s2)"
    by (cases "read_frame s")
  with None assms have r: "r = Inr df" and s1: "s1 = s2\<lparr>cache := Some (memoize df)\<rparr>"
    by (auto simp: load_data_def split: sum.splits)
  from rf r have "loadable df"
    by (auto intro: read_frame_loaded)
  with s1 show ?thesis
    by (simp add: Rep_memoize)
qed

lemma load_data_loaded: "load_data s = (Inr df, s1) \<Longrightarrow> loadable df"
  using load_data_Inr_cache Rep_loaded by metis

lemma load_data_again: "load_data s = (Inr df, s1) \<Longrightarrow> load_data s1 = (Inr df, s1)"
  using load_data_Inr_cache load_data_cached by metis

lemma load_data_fst_Inr:
  assumes "fst (load_data s) = Inr df"
  obtains s1 where "load_data s = (Inr df, s1)" and "load_data s1 = (Inr df, s1)"
    and "loadable df"
proof -
  obtain r s1 where "load_data s = (r, s1)"
    by (cases "load_data s")
  with assms have "load_data s = (Inr df, s1)"
    by simp
  then show thesis
    using load_data_again load_data_loaded that by blast
qed

lemma load_store0: "fst (load_data store0) = Inr frame0"
proof -
  have "reread_row squat_row = squat_row"
    by (simp add: reread_row_def squat_row_def read_text_def write_text_def na_text_def
        na_values_def)
  moreover have "set converted_columns \<subseteq> set SCHEMA"
    by (simp add: converted_columns_def SCHEMA_def)
  then have "coerce \<lparr>header = SCHEMA, lines = map encode_row [squat_row]\<rparr>
      = Inr (map reread_row [squat_row])"
    by (rule coerce_encode)
  moreover have "SCHEMA \<noteq> []"
    by (simp add: SCHEMA_def)
  ultimately show ?thesis
    by (simp add: store0_def frame0_def load_data_def read_frame_file)
qed

subsection \<open>Malformed cells\<close>

text \<open>
  Claim C3, evaluated on the code. The claim says that no malformed row makes the
  load fail. \<^verbatim>\<open>load_data\<close> converts the three numeric columns with
  \<^verbatim>\<open>errors="coerce"\<close> but the date column with the default \<^verbatim>\<open>errors="raise"\<close>: on
  a file whose only line has the date cell \<^verbatim>\<open>not-a-date\<close> the load raises. A
  \<^verbatim>\<open>reps\<close> cell \<^verbatim>\<open>inf\<close> is a number to \<^verbatim>\<open>pd.to_numeric\<close>, is left as it is by
  \<^verbatim>\<open>fillna(0)\<close>, and makes \<^verbatim>\<open>.astype(int)\<close> raise. A line whose \<^verbatim>\<open>reps\<close> cell is
  \<^verbatim>\<open>eight\<close> and whose volume cell is blank is read with reps 0 and volume 0.0, as
  the claim says of the numeric cells.
\<close>

theorem load_data_raises_on_malformed_cells:
  "fst (load_data \<lparr>data_file = Some \<lparr>header = SCHEMA, lines = [bad_row]\<rparr>, cache = None\<rparr>)
     = Inl DateParseError \<and>
   fst (load_data \<lparr>data_file = Some \<lparr>header = SCHEMA, lines = [inf_row]\<rparr>, cache = None\<rparr>)
     = Inl IntCastingNaNError \<and>
   fst (load_data \<lparr>data_file = Some \<lparr>header = SCHEMA, lines = [junk_row]\<rparr>, cache = None\<rparr>)
     = Inr \<lparr>columns = SCHEMA,
            rows = [\<lparr>entry_id = ''a1'', timestamp = ''2024-01-15T10:00:00'',
                     date = \<lparr>year = 2024, month = 1, day = 15\<rparr>, exercise = ''Squat'',
                     set_num = 1, reps = 0, weight = 50, unit = ''kg'', notes_text = None,
                     volume = 0\<rparr>]\<rparr>"
proof (intro conjI)
  have "coerce \<lparr>header = SCHEMA, lines = [bad_row]\<rparr> = Inl DateParseError"
    by (simp add: coerce_def getitem_def SCHEMA_def to_datetime_def bad_row_def)
  then show "fst (load_data \<lparr>data_file = Some \<lparr>header = SCHEMA, lines = [bad_row]\<rparr>, cache = None\<rparr>)
      = Inl DateParseError"
    by (simp add: load_data_def read_frame_file) (simp add: SCHEMA_def)
next
  have "coerce \<lparr>header = SCHEMA, lines = [inf_row]\<rparr> = Inl IntCastingNaNError"
    by (simp add: coerce_def getitem_def SCHEMA_def to_datetime_def parse_as_def astype_int_def
        to_numeric_reps_def fillna_def inf_row_def)
  then show "fst (load_data \<lparr>data_file = Some \<lparr>header = SCHEMA, lines = [inf_row]\<rparr>, cache = None\<rparr>)
      = Inl IntCastingNaNError"
    by (simp add: load_data_def read_frame_file) (simp add: SCHEMA_def)
next
  have "coerce \<lparr>header = SCHEMA, lines = [junk_row]\<rparr>
      = Inr [\<lparr>entry_id = ''a1'', timestamp = ''2024-01-15T10:00:00'',
               date = \<lparr>year = 2024, month = 1, day = 15\<rparr>, exercise = ''Squat'',
               set_num = 1, reps = 0, weight = 50, unit = ''kg'', notes_text = None,
               volume = 0\<rparr>]"
    by (simp add: coerce_def getitem_def SCHEMA_def to_datetime_def parse_as_def astype_int_def
        to_numeric_reps_def to_numeric_def fillna_def trunc_def build_row_def read_text_def
        na_text_def na_values_def junk_row_def)
  then show "fst (load_data \<lparr>data_file = Some \<lparr>header = SCHEMA, lines = [junk_row]\<rparr>, cache = None\<rparr>)
      = Inr \<lparr>columns = SCHEMA,
            rows = [\<lparr>entry_id = ''a1'', timestamp = ''2024-01-15T10:00:00'',
                     date = \<lparr>year = 2024, month = 1, day = 15\<rparr>, exercise = ''Squat'',
                     set_num = 1, reps = 0, weight = 50, unit = ''kg'', notes_text = None,
                     volume = 0\<rparr>]\<rparr>"
    by (simp add: load_data_def read_frame_file) (simp add: SCHEMA_def)
qed

subsection \<open>The memoized load\<close>

lemma ensure_data_file_idem: "ensure_data_file (ensure_data_file s) = ensure_data_file s"
  by (simp add: ensure_data_file_def split: option.splits)

lemma read_frame_snd: "snd (read_frame s) = ensure_data_file s"
  by (simp add: read_frame_def Let_def split: sum.splits)

lemma read_frame_ensure: "read_frame (ensure_data_file s) = read_frame s"
  by (simp add: read_frame_def ensure_data_file_idem)











section \<open>Export and reload\<close>




section \<open>Adding a batch\<close>










section \<open>Deleting by id\<close>




section \<open>The schema of the backing file\<close>

lemma read_frame_cache_irrelevant: "fst (read_frame (s\<lparr>cache := c\<rparr>)) = fst (read_frame s)"
  by (simp add: read_frame_def ensure_data_file_def read_csv_def Let_def
      split: option.splits sum.splits)

lemma read_frame_columns:
  assumes "data_file s = Some f" and "fst (read_frame s) = Inr df"
  shows "columns df = header f" and "length (rows df) = length (lines f)"
proof -
  from assms obtain rs where c: "lines f = [] \<and> rs = [] \<or> coerce f = Inr rs"
    and df: "df = \<lparr>columns = header f, rows = rs\<rparr>"
    by (auto simp: read_frame_file split: sum.splits if_splits)
  from df show "columns df = header f"
    by simp
  from c df show "length (rows df) = length (lines f)"
    by (auto dest: coerce_rows(1))
qed

lemma read_frame_fst_loaded:
  assumes "fst (read_frame s) = Inr df"
  shows "Rep_loaded_frame (memoize df) = df"
proof -
  from assms have "read_frame s = (Inr df, snd (read_frame s))"
    by (metis prod.collapse)
  then have "loadable df"
    by (rule read_frame_loaded)
  then show ?thesis
    by (rule Rep_memoize)
qed

lemma store_inv_ensure:
  assumes "store_inv s"
  shows "store_inv (ensure_data_file s)" and "file_header (ensure_data_file s) = Some SCHEMA"
  using assms
  by (auto simp: store_inv_def ensure_data_file_def file_header_def split: option.splits)

lemma store_inv_save:
  assumes "columns df = SCHEMA"
  shows "store_inv (save_data df s)" and "file_header (save_data df s) = Some SCHEMA"
  using assms by (simp_all add: store_inv_def save_data_def to_csv_def file_header_def)

lemma load_data_state:
  "snd (load_data s) = ensure_data_file s \<or>
   (\<exists>df. fst (read_frame s) = Inr df \<and> cache s = None \<and>
         snd (load_data s) = (ensure_data_file s)\<lparr>cache := Some (memoize df)\<rparr>) \<or>
   (\<exists>m. cache s = Some m \<and> snd (load_data s) = s)"
proof (cases "cache s")
  case None
  obtain r s1 where rf: "read_frame s = (r, s1)"
    by (cases "read_frame s")
  then have "s1 = ensure_data_file s"
    using read_frame_snd [of s] by simp
  with None rf show ?thesis
    by (cases r) (simp_all add: load_data_def)
next
  case (Some m)
  then show ?thesis
    by (simp add: load_data_def)
qed

lemma store_inv_load:
  assumes "store_inv s"
  shows "store_inv (snd (load_data s))" and "file_header (snd (load_data s)) = Some SCHEMA"
proof -
  have e: "store_inv (ensure_data_file s)" "file_header (ensure_data_file s) = Some SCHEMA"
    using assms by (rule store_inv_ensure)+
  from load_data_state [of s]
  consider (raised) "snd (load_data s) = ensure_data_file s"
    | (read) df where "fst (read_frame s) = Inr df" "cache s = None"
        "snd (load_data s) = (ensure_data_file s)\<lparr>cache := Some (memoize df)\<rparr>"
    | (cached) m where "cache s = Some m" "snd (load_data s) = s"
    by blast
  then have "store_inv (snd (load_data s)) \<and> file_header (snd (load_data s)) = Some SCHEMA"
  proof cases
    case raised
    with e show ?thesis by simp
  next
    case (read df)
    have "fst (read_frame ((ensure_data_file s)\<lparr>cache := Some (memoize df)\<rparr>))
        = Inr (Rep_loaded_frame (memoize df))"
      using read(1) by (simp add: read_frame_cache_irrelevant read_frame_ensure read_frame_fst_loaded)
    moreover from e obtain f where "data_file (ensure_data_file s) = Some f" "header f = SCHEMA"
      by (auto simp: file_header_def)
    ultimately show ?thesis
      using read(3) by (simp add: store_inv_def file_header_def)
  next
    case (cached m)
    with assms show ?thesis
      by (auto simp: store_inv_def file_header_def split: option.splits)
  qed
  then show "store_inv (snd (load_data s))" and "file_header (snd (load_data s)) = Some SCHEMA"
    by simp_all
qed

lemma store_inv_loaded:
  assumes "store_inv s" and "load_data s = (Inr df, s1)"
  shows "columns df = SCHEMA"
    and "\<exists>f. data_file s1 = Some f \<and> header f = SCHEMA \<and> length (lines f) = length (rows df)"
proof -
  have i: "store_inv s1"
    using store_inv_load(1) [OF assms(1)] assms(2) by simp
  obtain m where c: "cache s1 = Some m" "Rep_loaded_frame m = df"
    using load_data_Inr_cache [OF assms(2)] by blast
  from i c obtain f where f: "data_file s1 = Some f" "header f = SCHEMA"
    and r: "fst (read_frame s1) = Inr df"
    by (auto simp: store_inv_def split: option.splits)
  from read_frame_columns [OF f(1) r] f
  show "columns df = SCHEMA"
    and "\<exists>f. data_file s1 = Some f \<and> header f = SCHEMA \<and> length (lines f) = length (rows df)"
    by simp_all
qed

lemma concat_schema: "columns df = SCHEMA \<Longrightarrow> columns (concat_frames df (DataFrame new)) = SCHEMA"
  by (simp add: concat_frames_def DataFrame_def)

lemma store_inv_add:
  assumes "store_inv s"
  shows "store_inv (snd (add_workout_entry uuid4 now d ex sets u n s)) \<and>
         file_header (snd (add_workout_entry uuid4 now d ex sets u n s)) = Some SCHEMA"
proof -
  obtain r s1 where l: "load_data s = (r, s1)"
    by (cases "load_data s")
  have i: "store_inv s1" "file_header s1 = Some SCHEMA"
    using store_inv_load [OF assms] l by simp_all
  show ?thesis
  proof (cases r)
    case (Inl e)
    with l i show ?thesis
      by (simp add: add_workout_entry_def)
  next
    case (Inr df)
    with l have "columns df = SCHEMA"
      using store_inv_loaded(1) [OF assms] by simp
    then have "columns (concat_frames df (DataFrame new)) = SCHEMA" for new
      by (rule concat_schema)
    then show ?thesis
      using l Inr i by (simp add: add_workout_entry_def Let_def store_inv_save)
  qed
qed

lemma store_inv_delete:
  assumes "store_inv s"
  shows "store_inv (snd (delete_rows_by_ids ids s)) \<and>
         file_header (snd (delete_rows_by_ids ids s)) = Some SCHEMA"
proof -
  obtain r s1 where l: "load_data s = (r, s1)"
    by (cases "load_data s")
  have i: "store_inv s1" "file_header s1 = Some SCHEMA"
    using store_inv_load [OF assms] l by simp_all
  show ?thesis
  proof (cases r)
    case (Inl e)
    with l i show ?thesis
      by (simp add: delete_rows_by_ids_def)
  next
    case (Inr df)
    with l have "columns df = SCHEMA"
      using store_inv_loaded(1) [OF assms] by simp
    then show ?thesis
      using l Inr i by (simp add: delete_rows_by_ids_def store_inv_save)
  qed
qed

lemma delete_all_rows:
  assumes "store_inv s" and "fst (load_data s) = Inr df" and "entry_id ` set (rows df) \<subseteq> set ids"
  shows "data_file (snd (delete_rows_by_ids ids s)) = Some \<lparr>header = SCHEMA, lines = []\<rparr> \<and>
         fst (load_data (snd (delete_rows_by_ids ids s))) = Inr \<lparr>columns = SCHEMA, rows = []\<rparr>"
proof -
  from assms(2) obtain s1 where l: "load_data s = (Inr df, s1)" and c: "load_data s1 = (Inr df, s1)"
    by (rule load_data_fst_Inr)
  have cols: "columns df = SCHEMA"
    using assms(1) l by (rule store_inv_loaded(1))
  from assms(3) have none: "filter (\<lambda>r. entry_id r \<notin> set ids) (rows df) = []"
    by (auto simp: filter_empty_conv)
  show ?thesis
  proof (cases "rows df = []")
    case True
    from store_inv_loaded(2) [OF assms(1) l] True
    obtain f where f: "data_file s1 = Some f" "header f = SCHEMA" "lines f = []"
      by auto
    then have "data_file s1 = Some \<lparr>header = SCHEMA, lines = []\<rparr>"
      by simp
    moreover have "df = \<lparr>columns = SCHEMA, rows = []\<rparr>"
      using cols True by simp
    ultimately show ?thesis
      using l c True by (simp add: delete_rows_by_ids_def empty_def)
  next
    case False
    have "df\<lparr>rows := []\<rparr> = \<lparr>columns = SCHEMA, rows = []\<rparr>"
      using cols by simp
    moreover have "reread \<lparr>columns = SCHEMA, rows = []\<rparr> = \<lparr>columns = SCHEMA, rows = []\<rparr>"
      by (simp add: reread_def)
    moreover have "header_ok \<lparr>columns = SCHEMA, rows = []\<rparr>"
      by (simp add: header_ok_def SCHEMA_def)
    ultimately show ?thesis
      using l False none
      by (simp add: delete_rows_by_ids_def empty_def load_data_saved)
        (simp add: save_data_def to_csv_def)
  qed
qed

text \<open>
  Claim C10. From a store that satisfies the invariant (a store with no file and
  nothing memoized does), creating the file, adding a batch and deleting rows each
  leave a store that satisfies it again and whose file has the header \<open>SCHEMA\<close>, the
  ten columns in their fixed order. When every id of the table is among the ids
  deleted, the file left is the header alone, and the next load reads it as the frame
  with the columns \<open>SCHEMA\<close> and no rows.
\<close>

theorem schema_preserved:
  assumes "store_inv s"
  shows "store_inv (ensure_data_file s) \<and> file_header (ensure_data_file s) = Some SCHEMA \<and>
         store_inv (snd (add_workout_entry uuid4 now d ex sets u n s)) \<and>
         file_header (snd (add_workout_entry uuid4 now d ex sets u n s)) = Some SCHEMA \<and>
         store_inv (snd (delete_rows_by_ids ids s)) \<and>
         file_header (snd (delete_rows_by_ids ids s)) = Some SCHEMA \<and>
         (\<forall>df. fst (load_data s) = Inr df \<and> entry_id ` set (rows df) \<subseteq> set ids \<longrightarrow>
            data_file (snd (delete_rows_by_ids ids s)) = Some \<lparr>header = SCHEMA, lines = []\<rparr> \<and>
            fst (load_data (snd (delete_rows_by_ids ids s))) = Inr \<lparr>columns = SCHEMA, rows = []\<rparr>)"
proof (intro conjI allI impI)
  show "store_inv (ensure_data_file s)"
    using assms by (rule store_inv_ensure(1))
  show "file_header (ensure_data_file s) = Some SCHEMA"
    using assms by (rule store_inv_ensure(2))
  show "store_inv (snd (add_workout_entry uuid4 now d ex sets u n s))"
    using store_inv_add [OF assms] by (rule conjunct1)
  show "file_header (snd (add_workout_entry uuid4 now d ex sets u n s)) = Some SCHEMA"
    using store_inv_add [OF assms] by (rule conjunct2)
  show "store_inv (snd (delete_rows_by_ids ids s))"
    using store_inv_delete [OF assms] by (rule conjunct1)
  show "file_header (snd (delete_rows_by_ids ids s)) = Some SCHEMA"
    using store_inv_delete [OF assms] by (rule conjunct2)
next
  fix df
  assume a: "fst (load_data s) = Inr df \<and> entry_id ` set (rows df) \<subseteq> set ids"
  then have l: "fst (load_data s) = Inr df" and i: "entry_id ` set (rows df) \<subseteq> set ids"
    by simp_all
  show "data_file (snd (delete_rows_by_ids ids s)) = Some \<lparr>header = SCHEMA, lines = []\<rparr>"
    using delete_all_rows [OF assms l i] by (rule conjunct1)
  show "fst (load_data (snd (delete_rows_by_ids ids s))) = Inr \<lparr>columns = SCHEMA, rows = []\<rparr>"
    using delete_all_rows [OF assms l i] by (rule conjunct2)
qed

theorem schema_preserved_witness:
  "file_header (ensure_data_file \<lparr>data_file = None, cache = None\<rparr>) = Some SCHEMA \<and>
   file_header (snd (add_workout_entry uuid_ex ''2024-01-15T09:00:00'' jan15 ''Bench Press''
                       bench_sets ''kg'' [] store0)) = Some SCHEMA \<and>
   data_file (snd (delete_rows_by_ids [''5f0c''] store0)) = Some \<lparr>header = SCHEMA, lines = []\<rparr> \<and>
   fst (load_data (snd (delete_rows_by_ids [''5f0c''] store0))) = Inr \<lparr>columns = SCHEMA, rows = []\<rparr>"
proof -
  have i0: "store_inv \<lparr>data_file = None, cache = None\<rparr>"
    by (simp add: store_inv_def)
  have i1: "store_inv store0"
    by (simp add: store_inv_def store0_def)
  have ids: "entry_id ` set (rows frame0) \<subseteq> set [''5f0c'']"
    by (simp add: frame0_def squat_row_def)
  from schema_preserved [OF i0]
  have a: "file_header (ensure_data_file \<lparr>data_file = None, cache = None\<rparr>) = Some SCHEMA"
    by (rule conjunct2 [THEN conjunct1])
  from schema_preserved [OF i1, of uuid_ex "''2024-01-15T09:00:00''" jan15 "''Bench Press''"
      bench_sets "''kg''" "[]" "[''5f0c'']"]
  have b: "file_header (snd (add_workout_entry uuid_ex ''2024-01-15T09:00:00'' jan15 ''Bench Press''
                       bench_sets ''kg'' [] store0)) = Some SCHEMA"
    and c: "\<forall>df. fst (load_data store0) = Inr df \<and> entry_id ` set (rows df) \<subseteq> set [''5f0c''] \<longrightarrow>
      data_file (snd (delete_rows_by_ids [''5f0c''] store0)) = Some \<lparr>header = SCHEMA, lines = []\<rparr> \<and>
      fst (load_data (snd (delete_rows_by_ids [''5f0c''] store0))) = Inr \<lparr>columns = SCHEMA, rows = []\<rparr>"
    by simp_all
  from c load_store0 ids
  have "data_file (snd (delete_rows_by_ids [''5f0c''] store0)) = Some \<lparr>header = SCHEMA, lines = []\<rparr> \<and>
      fst (load_data (snd (delete_rows_by_ids [''5f0c''] store0))) = Inr \<lparr>columns = SCHEMA, rows = []\<rparr>"
    by blast
  with a b show ?thesis
    by simp
qed

section \<open>Full history\<close>

lemma history_key_le: "history_key a \<le> history_key b \<longleftrightarrow> history_order a b"
proof -
  have eq: "date a = date b \<longleftrightarrow>
      year (date a) = year (date b) \<and> month (date a) = month (date b) \<and> day (date a) = day (date b)"
    by (cases "date a"; cases "date b") simp
  show ?thesis
    unfolding history_key_def history_order_def date_less_def eq less_eq_prod_def less_prod_def
    by (auto simp: order.order_iff_strict)
qed

lemma history_key_eq:
  "history_key r = ((- year (d::date), - month d, - day d), e, n) \<longleftrightarrow>
    date r = d \<and> exercise r = e \<and> set_num r = n"
  by (cases "date r"; cases d) (auto simp: history_key_def)

text \<open>
  Claim C8. The history view holds the rows of the table (each as often as the table
  does) in the order date descending, then exercise ascending, then set number
  ascending; the sort is stable, so the rows that agree on all three keys stand in the
  order the table has them.
\<close>

theorem show_df_sorted_stable:
  "sorted_wrt history_order (rows (show_df df)) \<and>
   mset (rows (show_df df)) = mset (rows df) \<and>
   columns (show_df df) = columns df \<and>
   (\<forall>d e n. filter (\<lambda>r. date r = d \<and> exercise r = e \<and> set_num r = n) (rows (show_df df))
            = filter (\<lambda>r. date r = d \<and> exercise r = e \<and> set_num r = n) (rows df))"
proof (intro conjI allI)
  have "sorted (map history_key (sort_key history_key (rows df)))"
    by (rule sorted_sort_key)
  then have "sorted_wrt (\<lambda>a b. history_key a \<le> history_key b) (sort_key history_key (rows df))"
    by (simp add: sorted_map)
  then show "sorted_wrt history_order (rows (show_df df))"
    by (simp add: show_df_def history_key_le)
next
  show "mset (rows (show_df df)) = mset (rows df)"
    by (simp add: show_df_def)
next
  show "columns (show_df df) = columns df"
    by (simp add: show_df_def)
next
  fix d :: date and e n
  have "filter (\<lambda>r. history_key r = ((- year d, - month d, - day d), e, n))
          (sort_key history_key (rows df))
      = filter (\<lambda>r. history_key r = ((- year d, - month d, - day d), e, n)) (rows df)"
    by (rule sort_key_stable)
  then show "filter (\<lambda>r. date r = d \<and> exercise r = e \<and> set_num r = n) (rows (show_df df))
      = filter (\<lambda>r. date r = d \<and> exercise r = e \<and> set_num r = n) (rows df)"
    by (simp add: show_df_def history_key_eq)
qed

theorem show_df_sorted_stable_witness:
  "rows (show_df (DataFrame [squat_row, jan12_row])) = [jan12_row, squat_row] \<and>
   sorted_wrt history_order [jan12_row, squat_row]"
proof -
  have r: "rows (show_df (DataFrame [squat_row, jan12_row])) = [jan12_row, squat_row]"
    by (simp add: show_df_def DataFrame_def squat_row_def jan12_row_def history_key_def
        less_eq_prod_def less_prod_def)
  from show_df_sorted_stable [of "DataFrame [squat_row, jan12_row]"]
  have "sorted_wrt history_order (rows (show_df (DataFrame [squat_row, jan12_row])))"
    by (rule conjunct1)
  with r show ?thesis
    by simp
qed

section \<open>Weekly summary\<close>

lemma groupby_sum_distinct: "distinct (map fst (groupby_sum kvs))"
  by (simp add: groupby_sum_def comp_def)

lemma map_of_groupby_sum:
  "map_of (groupby_sum kvs) k =
    (if k \<in> fst ` set kvs then Some (sum_list (map snd (filter (\<lambda>p. fst p = k) kvs))) else None)"
proof -
  have "map_of (map (\<lambda>k. (k, f k)) ks) k = (if k \<in> set ks then Some (f k) else None)"
    for f :: "string \<Rightarrow> real" and ks
    by (induction ks) auto
  then show ?thesis
    by (simp add: groupby_sum_def)
qed

lemma filter_key_distinct:
  "distinct (map fst g) \<Longrightarrow>
    filter (\<lambda>p. fst p = k) g = (case map_of g k of None \<Rightarrow> [] | Some v \<Rightarrow> [(k, v)])"
proof (induction g)
  case Nil
  then show ?case by simp
next
  case (Cons p g)
  show ?case
  proof (cases "fst p = k")
    case True
    with Cons.prems have "k \<notin> fst ` set g"
      by auto
    then have "filter (\<lambda>p. fst p = k) g = []"
      by (auto simp: filter_empty_conv)
    with True show ?thesis
      by (cases p) simp
  next
    case False
    with Cons show ?thesis
      by (cases p) auto
  qed
qed

lemma merge_left_distinct:
  assumes "distinct (map fst g)"
  shows "merge_left ks g = map (\<lambda>k. (k, map_of g k)) ks"
proof -
  have "(case filter (\<lambda>p. fst p = k) g of
           [] \<Rightarrow> [(k, None)]
         | ms \<Rightarrow> map (\<lambda>p. (k, Some (snd p))) ms) = [(k, map_of g k)]" for k
    by (simp add: filter_key_distinct [OF assms] split: option.splits)
  then show ?thesis
    by (simp add: merge_left_def)
qed

lemma wk_list_in_range:
  assumes "0 < toordinal today" and "toordinal today \<le> MAXORDINAL"
    and "7 * (weeks - 1) < toordinal today"
  shows "wk_list today weeks =
    Inr (map (\<lambda>i. strftime_Y_W_V (ord2ymd (toordinal today - 7 * i))) (rev [0..weeks - 1]))"
proof -
  have "(case sub_weeks today i of Inl e \<Rightarrow> Inl e | Inr d \<Rightarrow> Inr (strftime_Y_W_V d))
      = Inr (strftime_Y_W_V (ord2ymd (toordinal today - 7 * i)))"
    if "i \<in> set (rev [0..weeks - 1])" for i
    using that assms by (simp add: sub_weeks_def)
  then have "map (\<lambda>i. case sub_weeks today i of Inl e \<Rightarrow> Inl e | Inr d \<Rightarrow> Inr (strftime_Y_W_V d))
        (rev [0..weeks - 1])
      = map Inr (map (\<lambda>i. strftime_Y_W_V (ord2ymd (toordinal today - 7 * i))) (rev [0..weeks - 1]))"
    by (simp del: set_rev set_upto)
  then show ?thesis
    unfolding wk_list_def by (simp only: collect_map_Inr)
qed

lemma week_volume:
  "fillna 0 (map_of (groupby_sum (map (\<lambda>(w, r). (w, volume r)) (map (\<lambda>r. (strftime_Y_W_V (date r), r)) rs))) w)
    = sum_list (map volume (filter (\<lambda>r. strftime_Y_W_V (date r) = w) rs))"
proof -
  have m: "map (\<lambda>(w, r). (w, volume r)) (map (\<lambda>r. (strftime_Y_W_V (date r), r)) rs)
      = map (\<lambda>r. (strftime_Y_W_V (date r), volume r)) rs"
    by simp
  have s: "map snd (filter (\<lambda>p. fst p = w) (map (\<lambda>r. (strftime_Y_W_V (date r), volume r)) rs))
      = map volume (filter (\<lambda>r. strftime_Y_W_V (date r) = w) rs)"
    by (induction rs) simp_all
  show ?thesis
  proof (cases "w \<in> (\<lambda>r. strftime_Y_W_V (date r)) ` set rs")
    case True
    then have "w \<in> fst ` set (map (\<lambda>r. (strftime_Y_W_V (date r), volume r)) rs)"
      by force
    then show ?thesis
      unfolding m by (simp only: map_of_groupby_sum s if_True fillna_def option.case)
  next
    case False
    then have "w \<notin> fst ` set (map (\<lambda>r. (strftime_Y_W_V (date r), volume r)) rs)"
      by force
    moreover from False have "filter (\<lambda>r. strftime_Y_W_V (date r) = w) rs = []"
      by (auto simp: filter_empty_conv)
    ultimately show ?thesis
      unfolding m by (simp only: map_of_groupby_sum if_False fillna_def option.case) simp
  qed
qed

lemma get_weekly_summary_All:
  assumes "rows df \<noteq> []" and "0 < toordinal today" and "toordinal today \<le> MAXORDINAL"
    and "7 * (weeks - 1) < toordinal today"
  shows "get_weekly_summary today df weeks (Some ''All'') =
    Inr (map (\<lambda>i. (strftime_Y_W_V (ord2ymd (toordinal today - 7 * i)),
                   sum_list (map volume (filter (\<lambda>r. strftime_Y_W_V (date r)
                       = strftime_Y_W_V (ord2ymd (toordinal today - 7 * i))) (rows df)))))
          (rev [0..weeks - 1]))"
proof -
  let ?g = "groupby_sum (map (\<lambda>(w, r). (w, volume r))
              (map (\<lambda>r. (strftime_Y_W_V (date r), r)) (rows df)))"
  let ?ks = "map (\<lambda>i. strftime_Y_W_V (ord2ymd (toordinal today - 7 * i))) (rev [0..weeks - 1])"
  have "get_weekly_summary today df weeks (Some ''All'')
      = Inr (map (\<lambda>(w, v). (w, fillna 0 v)) (merge_left ?ks ?g))"
    using assms(1)
    by (simp add: get_weekly_summary_def empty_def wk_list_in_range [OF assms(2-4)] del: map_map)
  moreover have "map (\<lambda>(w, v). (w, fillna 0 v)) (merge_left ?ks ?g)
      = map (\<lambda>k. (k, fillna 0 (map_of ?g k))) ?ks"
    by (simp add: merge_left_distinct [OF groupby_sum_distinct] comp_def)
  moreover have "map (\<lambda>k. (k, fillna 0 (map_of ?g k))) ?ks
      = map (\<lambda>k. (k, sum_list (map volume (filter (\<lambda>r. strftime_Y_W_V (date r) = k) (rows df))))) ?ks"
    by (simp only: week_volume)
  ultimately show ?thesis
    by (simp add: comp_def)
qed

lemma rev_upto_nth:
  assumes "k < nat weeks"
  shows "rev [0..weeks - 1] ! k = weeks - 1 - int k"
proof -
  have len: "length [0..weeks - 1] = nat weeks"
    by simp
  with assms have "rev [0..weeks - 1] ! k = [0..weeks - 1] ! (nat weeks - Suc k)"
    by (simp add: rev_nth)
  also have "\<dots> = 0 + int (nat weeks - Suc k)"
    using assms by (intro nth_upto) linarith
  also have "\<dots> = weeks - 1 - int k"
    using assms by linarith
  finally show ?thesis .
qed

text \<open>
  Claim C1, as amended. For a table with at least one row, \<open>today\<close> a date and the
  oldest of the \<open>weeks\<close> weeks still a date Python can hold, the summary with the
  filter \<^verbatim>\<open>"All"\<close> has exactly \<open>weeks\<close> rows (none when \<open>weeks \<le> 0\<close>); the \<open>k\<close>-th
  row is labelled with the week of the day \<open>7 * (weeks - 1 - k)\<close> days before today,
  so the rows run from the oldest week to the week of today; the volume of a row is the
  sum of the volumes of the entries that carry its label, which is 0 when there is
  none.
\<close>

theorem get_weekly_summary_buckets:
  assumes "rows df \<noteq> []" and "valid_date today" and "7 * (weeks - 1) < toordinal today"
  shows "\<exists>res. get_weekly_summary today df weeks (Some ''All'') = Inr res \<and>
           length res = nat weeks \<and>
           (\<forall>k<nat weeks.
              fst (res ! k) = strftime_Y_W_V (ord2ymd (toordinal today - 7 * (weeks - 1 - int k))) \<and>
              snd (res ! k) =
                sum_list (map volume (filter (\<lambda>r. strftime_Y_W_V (date r) = fst (res ! k)) (rows df))) \<and>
              ((\<forall>r\<in>set (rows df). strftime_Y_W_V (date r) \<noteq> fst (res ! k)) \<longrightarrow> snd (res ! k) = 0)) \<and>
           (0 < weeks \<longrightarrow> fst (last res) = strftime_Y_W_V today)"
proof -
  let ?F = "\<lambda>i. (strftime_Y_W_V (ord2ymd (toordinal today - 7 * i)),
                 sum_list (map volume (filter (\<lambda>r. strftime_Y_W_V (date r)
                     = strftime_Y_W_V (ord2ymd (toordinal today - 7 * i))) (rows df))))"
  let ?res = "map ?F (rev [0..weeks - 1])"
  from assms(2) have v: "0 < toordinal today" "toordinal today \<le> MAXORDINAL"
    and rt: "ord2ymd (toordinal today) = today"
    by (simp_all add: valid_date_def)
  have r: "get_weekly_summary today df weeks (Some ''All'') = Inr ?res"
    using assms(1) v assms(3) by (rule get_weekly_summary_All)
  have n: "length ?res = nat weeks"
    by simp
  have at: "?res ! k = ?F (weeks - 1 - int k)" if "k < nat weeks" for k
    using that by (simp add: rev_upto_nth)
  have zero: "sum_list (map volume (filter (\<lambda>r. strftime_Y_W_V (date r) = w) (rows df))) = 0"
    if "\<forall>r\<in>set (rows df). strftime_Y_W_V (date r) \<noteq> w" for w
  proof -
    from that have "filter (\<lambda>r. strftime_Y_W_V (date r) = w) (rows df) = []"
      by (simp add: filter_empty_conv)
    then show ?thesis by simp
  qed
  have buckets: "\<forall>k<nat weeks.
      fst (?res ! k) = strftime_Y_W_V (ord2ymd (toordinal today - 7 * (weeks - 1 - int k))) \<and>
      snd (?res ! k) =
        sum_list (map volume (filter (\<lambda>r. strftime_Y_W_V (date r) = fst (?res ! k)) (rows df))) \<and>
      ((\<forall>r\<in>set (rows df). strftime_Y_W_V (date r) \<noteq> fst (?res ! k)) \<longrightarrow> snd (?res ! k) = 0)"
  proof (intro allI impI)
    fix k assume k: "k < nat weeks"
    show "fst (?res ! k) = strftime_Y_W_V (ord2ymd (toordinal today - 7 * (weeks - 1 - int k))) \<and>
      snd (?res ! k) =
        sum_list (map volume (filter (\<lambda>r. strftime_Y_W_V (date r) = fst (?res ! k)) (rows df))) \<and>
      ((\<forall>r\<in>set (rows df). strftime_Y_W_V (date r) \<noteq> fst (?res ! k)) \<longrightarrow> snd (?res ! k) = 0)"
      unfolding at [OF k] using zero by simp
  qed
  have last: "fst (last ?res) = strftime_Y_W_V today" if "0 < weeks"
  proof -
    from that have ne: "[0..weeks - 1] \<noteq> []"
      by simp
    then have "last ?res = ?F (hd [0..weeks - 1])"
      by (simp add: last_map last_rev)
    also from that have "hd [0..weeks - 1] = 0"
      by (simp add: upto_rec1)
    finally show ?thesis
      by (simp add: rt)
  qed
  from r n buckets last show ?thesis
    by blast
qed

lemma valid_jan15: "valid_date jan15"
  by code_simp

theorem get_weekly_summary_buckets_witness:
  "\<exists>res. get_weekly_summary jan15 frame0 4 (Some ''All'') = Inr res \<and> length res = 4 \<and>
         fst (res ! 0) = ''2023-W52'' \<and> snd (res ! 0) = 0 \<and>
         fst (last res) = ''2024-W03''"
proof -
  have ne: "rows frame0 \<noteq> []"
    by (simp add: frame0_def)
  have w: "7 * (4 - 1) < toordinal jan15"
    by code_simp
  from get_weekly_summary_buckets [OF ne valid_jan15 w]
  obtain res where r: "get_weekly_summary jan15 frame0 4 (Some ''All'') = Inr res"
    and n: "length res = nat 4"
    and b: "\<forall>k<nat 4.
      fst (res ! k) = strftime_Y_W_V (ord2ymd (toordinal jan15 - 7 * (4 - 1 - int k))) \<and>
      snd (res ! k) =
        sum_list (map volume (filter (\<lambda>r. strftime_Y_W_V (date r) = fst (res ! k)) (rows frame0))) \<and>
      ((\<forall>r\<in>set (rows frame0). strftime_Y_W_V (date r) \<noteq> fst (res ! k)) \<longrightarrow> snd (res ! k) = 0)"
    and l: "0 < (4::int) \<longrightarrow> fst (last res) = strftime_Y_W_V jan15"
    by blast
  have l0: "strftime_Y_W_V (ord2ymd (toordinal jan15 - 7 * (4 - 1 - int 0))) = ''2023-W52''"
    by code_simp
  have l1: "strftime_Y_W_V (date squat_row) = ''2024-W02''"
    by code_simp
  have l2: "strftime_Y_W_V jan15 = ''2024-W03''"
    by code_simp
  from b have f0: "fst (res ! 0) = ''2023-W52''"
    using l0 by simp
  from b have "(\<forall>r\<in>set (rows frame0). strftime_Y_W_V (date r) \<noteq> fst (res ! 0)) \<longrightarrow> snd (res ! 0) = 0"
    by simp
  with f0 l1 have "snd (res ! 0) = 0"
    by (simp add: frame0_def)
  with r n f0 l l2 show ?thesis
    by (intro exI [of _ res]) simp
qed

lemma get_weekly_summary_empty:
  "rows df = [] \<Longrightarrow> get_weekly_summary today df weeks flt = Inr []"
  by (simp add: get_weekly_summary_def empty_def)

text \<open>
  Claim C1 as stated fails on a table with no rows: \<^verbatim>\<open>get_weekly_summary\<close> returns
  \<^verbatim>\<open>pd.DataFrame()\<close> before it builds the list of weeks, so there are no buckets
  rather than twelve.
\<close>

theorem get_weekly_summary_empty_table:
  "get_weekly_summary jan15 \<lparr>columns = SCHEMA, rows = []\<rparr> 12 (Some ''All'') = Inr [] \<and>
   \<not> (\<exists>res. get_weekly_summary jan15 \<lparr>columns = SCHEMA, rows = []\<rparr> 12 (Some ''All'') = Inr res \<and>
            length res = 12)"
  by (simp add: get_weekly_summary_empty)

text \<open>
  Claim C2, evaluated on the code. \<^verbatim>\<open>"%Y-W%V"\<close> pairs the ISO week with the calendar
  year: Monday 2024-12-30 lies in ISO week 1 of 2025 and is labelled \<open>2024-W01\<close>, the
  label of the week of 2024-01-01. On Thursday 2025-01-02, a day of the same ISO week,
  the summary of a table that holds only a set of 2024-12-30 shows 0 in all its rows.
\<close>

theorem year_week_calendar_year:
  "strftime_Y_W_V \<lparr>year = 2024, month = 12, day = 30\<rparr> = ''2024-W01'' \<and>
   isocalendar \<lparr>year = 2024, month = 12, day = 30\<rparr> = (2025, 1, 1) \<and>
   strftime_Y_W_V \<lparr>year = 2024, month = 1, day = 1\<rparr> = ''2024-W01'' \<and>
   get_weekly_summary \<lparr>year = 2025, month = 1, day = 2\<rparr>
     (DataFrame [squat_row\<lparr>date := \<lparr>year = 2024, month = 12, day = 30\<rparr>\<rparr>]) 4 (Some ''All'')
     = Inr [(''2024-W50'', 0), (''2024-W51'', 0), (''2024-W52'', 0), (''2025-W01'', 0)]"
  by code_simp

end
